theory Spec2Isabelle
  imports Main "HOL-Library.Sublist"
begin

section \<open>Strings of the host language\<close>

text \<open>
  Both services are written in Python. A \<open>str\<close> is modelled as a \<open>string\<close>, one
  \<open>char\<close> per character, and the model covers ASCII text: \<open>str.lower\<close> maps
  \<open>A\<close>..\<open>Z\<close> to \<open>a\<close>..\<open>z\<close> and leaves every other character alone, and the
  whitespace of \<open>str.split\<close> is the ASCII whitespace of \<open>str.isspace\<close>
  (tab, line feed, vertical tab, form feed, carriage return, the four separators
  \<open>0x1C\<close>..\<open>0x1F\<close> and the space).
\<close>

definition lower_char :: "char \<Rightarrow> char" where
  "lower_char c =
     (let n = (of_char c :: nat) in if 65 \<le> n \<and> n \<le> 90 then char_of (n + 32) else c)"

definition lower :: "string \<Rightarrow> string" where
  "lower s = map lower_char s"

definition is_space :: "char \<Rightarrow> bool" where
  "is_space c \<longleftrightarrow>
     (let n = (of_char c :: nat) in (9 \<le> n \<and> n \<le> 13) \<or> (28 \<le> n \<and> n \<le> 32))"

text \<open>
  \<open>s.split()\<close> without a separator: skip a run of whitespace, cut the run of
  non-whitespace characters that follows, and go on behind it. Empty words never arise.
\<close>

function split :: "string \<Rightarrow> string list" where
  "split s =
     (case dropWhile is_space s of
        [] \<Rightarrow> []
      | c # cs \<Rightarrow>
          (c # takeWhile (\<lambda>x. \<not> is_space x) cs) # split (dropWhile (\<lambda>x. \<not> is_space x) cs))"
  by pat_completeness auto
termination
proof (relation "measure length")
  show "wf (measure length)" by simp
next
  fix s :: string and c cs
  assume eq: "dropWhile is_space s = c # cs"
  have "length (dropWhile (\<lambda>x. \<not> is_space x) cs) \<le> length cs"
    by (rule length_dropWhile_le)
  also have "length cs < length (dropWhile is_space s)"
    by (simp add: eq)
  also have "length (dropWhile is_space s) \<le> length s"
    by (rule length_dropWhile_le)
  finally show "(dropWhile (\<lambda>x. \<not> is_space x) cs, s) \<in> measure length"
    by simp
qed

declare split.simps [simp del]

text \<open>The operator \<open>w in s\<close> on two strings: \<open>w\<close> occurs in \<open>s\<close> as a contiguous run.\<close>

fun str_in :: "string \<Rightarrow> string \<Rightarrow> bool" where
  "str_in w [] \<longleftrightarrow> w = []"
| "str_in w (c # cs) \<longleftrightarrow> prefix w (c # cs) \<or> str_in w cs"


section \<open>Recipe search service (\<open>main.py\<close>)\<close>

subsection \<open>The dataset and the responses\<close>

text \<open>
  A row of the table \<open>recipes\<close> as \<open>fetchall\<close> delivers it: identifier, name, the
  ingredient list as the text of a Python list literal, instructions.
\<close>

type_synonym row = "int \<times> string \<times> string \<times> string"

record recipe =
  r_id :: int
  r_name :: string
  r_ingredients :: "string list"
  r_instructions :: string

text \<open>
  The outcomes of opening the dataset and running \<open>SELECT * FROM recipes\<close> that the
  code tells apart: the file at \<open>DB_PATH\<close> is absent, or it is there and sqlite raises
  \<open>OperationalError\<close> with a message, or it is there and the query delivers the rows.
\<close>

datatype query_outcome = OperationalError string | Fetched "row list"

datatype dataset = Missing | Present query_outcome

datatype json_response = JSONResponse nat string

text \<open>
  \<open>get_all_recipes\<close> and the two search functions return either a \<open>JSONResponse\<close>
  or the list of structured recipes (\<open>Inl\<close> is the \<open>JSONResponse\<close>). An endpoint
  answers with a \<open>JSONResponse\<close> of its own or with the body \<open>{"results": \<dots>}\<close>
  around whatever the function returned.
\<close>

type_synonym recipes_result = "json_response + recipe list"

datatype response = Response json_response | Results recipes_result

subsection \<open>The functions\<close>

text \<open>
  The builtin \<open>eval\<close>, applied to the third column, is the parameter \<open>py_eval\<close>.
  The rows are those of the dataset: the third column holds the literal of a list of
  strings, and \<open>py_eval\<close> is the list it denotes. A text on which \<open>eval\<close> raises is
  not a row of this type; the handler has no branch for it.
\<close>

definition structured :: "(string \<Rightarrow> string list) \<Rightarrow> row \<Rightarrow> recipe" where
  "structured py_eval rw =
     (case rw of (c0, c1, c2, c3) \<Rightarrow>
        \<lparr>r_id = c0, r_name = c1, r_ingredients = py_eval c2, r_instructions = c3\<rparr>)"

definition get_all_recipes :: "(string \<Rightarrow> string list) \<Rightarrow> dataset \<Rightarrow> recipes_result" where
  "get_all_recipes py_eval db =
     (case db of
        Missing \<Rightarrow> Inl (JSONResponse 404 ''Database file not found.'')
      | Present (OperationalError e) \<Rightarrow> Inl (JSONResponse 500 (''Database error: '' @ e))
      | Present (Fetched recipes) \<Rightarrow> Inr (map (structured py_eval) recipes))"

definition search_recipes :: "(string \<Rightarrow> string list) \<Rightarrow> dataset \<Rightarrow> string \<Rightarrow> recipes_result" where
  "search_recipes py_eval db query =
     (case get_all_recipes py_eval db of
        Inl resp \<Rightarrow> Inl resp
      | Inr recipes \<Rightarrow>
          (let query_words = set (split (lower query))
           in Inr (filter (\<lambda>recipe. \<forall>word \<in> query_words. str_in word (lower (r_name recipe)))
                     recipes)))"

definition search_recipes_by_ingredients ::
    "(string \<Rightarrow> string list) \<Rightarrow> dataset \<Rightarrow> string list \<Rightarrow> recipes_result" where
  "search_recipes_by_ingredients py_eval db ingredients =
     (case get_all_recipes py_eval db of
        Inl resp \<Rightarrow> Inl resp
      | Inr recipes \<Rightarrow>
          (let ingredient_words = map lower ingredients
           in Inr (filter
                     (\<lambda>recipe. list_all
                        (\<lambda>ingredient. list_ex (\<lambda>item. str_in (lower ingredient) (lower item))
                           (r_ingredients recipe))
                        ingredient_words)
                     recipes)))"

definition search :: "(string \<Rightarrow> string list) \<Rightarrow> dataset \<Rightarrow> string \<Rightarrow> response" where
  "search py_eval db query =
     (if query = [] then Response (JSONResponse 400 ''Query parameter is required.'')
      else Results (search_recipes py_eval db query))"

definition search_by_ingredients ::
    "(string \<Rightarrow> string list) \<Rightarrow> dataset \<Rightarrow> string list \<Rightarrow> response" where
  "search_by_ingredients py_eval db ingredients =
     (if ingredients = [] then Response (JSONResponse 400 ''Ingredients list is required.'')
      else Results (search_recipes_by_ingredients py_eval db ingredients))"



section \<open>Account service (\<open>app/main.py\<close>)\<close>

subsection \<open>Documents, request bodies and failures\<close>

text \<open>
  A handler either raises or returns. \<open>HTTPException\<close> carries status code and detail;
  \<open>TypeError\<close> is what the hashing library raises when it is given \<open>None\<close>.
\<close>

datatype exn = HTTPException nat string | TypeError

text \<open>
  A key of a request body or of an update dictionary that need not be there:
  \<open>Unset\<close> when the key is absent, \<open>Given v\<close> when it is present with value \<open>v\<close>.
\<close>

datatype 'a field = Unset | Given 'a

text \<open>
  The pydantic model \<open>User\<close>: \<open>name\<close> and \<open>email\<close> are required, \<open>password\<close> and
  \<open>profile_image\<close> default to \<open>None\<close> and may be left out or sent as \<open>null\<close>.
\<close>

record User =
  u_name :: string
  u_email :: string
  u_password :: "string option field"
  u_profile_image :: "string option field"

record FavoriteRecipe =
  fr_image :: string
  fr_name :: string
  fr_ingredients :: "string list"
  fr_instructions :: string

text \<open>The documents of the collections \<open>users\<close> and \<open>favorite_recipes\<close>.\<close>

record user_doc =
  d_name :: string
  d_email :: string
  d_password :: string
  d_profile_image :: "string option"

record favorite_doc =
  fav_image :: string
  fav_name :: string
  fav_ingredients :: "string list"
  fav_instructions :: string
  fav_email :: string

record database =
  users_collection :: "user_doc list"
  favorites_collection :: "favorite_doc list"

text \<open>
  What a request reads from outside the two collections: the signing key, the clock
  (\<open>datetime.utcnow()\<close>, in seconds), the password context (\<open>pwd_context.hash\<close> with the
  salt it draws for this request, and \<open>pwd_context.verify\<close>), and what
  \<open>requests.get\<close> gives for a URL: \<open>None\<close> for a \<open>RequestException\<close>, else the status
  code and the \<open>Content-Type\<close> header if there is one.
\<close>

record env =
  SECRET_KEY :: string
  utcnow :: int
  pwd_hash :: "string \<Rightarrow> string"
  pwd_verify :: "string \<Rightarrow> string \<Rightarrow> bool"
  requests_get :: "string \<Rightarrow> (nat \<times> string option) option"

subsection \<open>The collection operations of the driver\<close>

text \<open>
  A collection is the list of its documents in insertion order. \<open>find_one\<close>,
  \<open>update_one\<close> and \<open>delete_one\<close> act on the first document that matches the filter;
  \<open>update_one\<close> reports \<open>modified_count\<close>, which is 0 when nothing matches or when the
  update leaves the matched document as it was; \<open>delete_one\<close> reports \<open>deleted_count\<close>.
\<close>

definition find_one :: "('a \<Rightarrow> bool) \<Rightarrow> 'a list \<Rightarrow> 'a option" where
  "find_one P xs = find P xs"

definition insert_one :: "'a \<Rightarrow> 'a list \<Rightarrow> 'a list" where
  "insert_one x xs = xs @ [x]"

fun update_one :: "('a \<Rightarrow> bool) \<Rightarrow> ('a \<Rightarrow> 'a) \<Rightarrow> 'a list \<Rightarrow> nat \<times> 'a list" where
  "update_one P f [] = (0, [])"
| "update_one P f (x # xs) =
     (if P x then (if f x = x then 0 else 1, f x # xs)
      else (case update_one P f xs of (n, ys) \<Rightarrow> (n, x # ys)))"

fun delete_one :: "('a \<Rightarrow> bool) \<Rightarrow> 'a list \<Rightarrow> nat \<times> 'a list" where
  "delete_one P [] = (0, [])"
| "delete_one P (x # xs) =
     (if P x then (1, xs) else (case delete_one P xs of (n, ys) \<Rightarrow> (n, x # ys)))"

definition delete_many :: "('a \<Rightarrow> bool) \<Rightarrow> 'a list \<Rightarrow> 'a list" where
  "delete_many P xs = filter (\<lambda>x. \<not> P x) xs"

subsection \<open>Tokens\<close>

text \<open>
  The claims of a token (\<open>sub\<close> and \<open>exp\<close>, the latter in seconds), and a token as the
  library hands it out: \<open>Signed k c\<close> is the serialisation of the claims \<open>c\<close> signed
  under the key \<open>k\<close>, \<open>Garbage\<close> any string that is no such serialisation.
  \<open>jwt_decode\<close> gives \<open>None\<close> where the library raises \<open>JWTError\<close>: on garbage, on a
  signature under another key, and on an expiry that lies before the clock.
\<close>

record claims =
  sub :: "string option"
  exp :: "int option"

datatype jwt = Signed string claims | Garbage

definition jwt_encode :: "claims \<Rightarrow> string \<Rightarrow> jwt" where
  "jwt_encode c key = Signed key c"

definition jwt_decode :: "jwt \<Rightarrow> string \<Rightarrow> int \<Rightarrow> claims option" where
  "jwt_decode token key now =
     (case token of
        Garbage \<Rightarrow> None
      | Signed k c \<Rightarrow>
          if k \<noteq> key then None
          else (case exp c of
                  None \<Rightarrow> Some c
                | Some e \<Rightarrow> if e < now then None else Some c))"

subsection \<open>Helper functions\<close>

definition ACCESS_TOKEN_EXPIRE_MINUTES :: int where
  "ACCESS_TOKEN_EXPIRE_MINUTES = 30"

definition verify_password :: "env \<Rightarrow> string \<Rightarrow> string \<Rightarrow> bool" where
  "verify_password e plain_password hashed_password = pwd_verify e plain_password hashed_password"

definition get_password_hash :: "env \<Rightarrow> string option \<Rightarrow> exn + string" where
  "get_password_hash e password =
     (case password of None \<Rightarrow> Inl TypeError | Some p \<Rightarrow> Inr (pwd_hash e p))"

text \<open>
  \<open>expires_delta or timedelta(minutes=30)\<close>: the default stands in for \<open>None\<close> and
  for a zero delta alike.
\<close>

definition create_access_token :: "env \<Rightarrow> claims \<Rightarrow> int option \<Rightarrow> jwt" where
  "create_access_token e data expires_delta =
     (let delta = (case expires_delta of
                     None \<Rightarrow> ACCESS_TOKEN_EXPIRE_MINUTES * 60
                   | Some d \<Rightarrow> if d = 0 then ACCESS_TOKEN_EXPIRE_MINUTES * 60 else d);
          expire = utcnow e + delta
      in jwt_encode (data\<lparr>exp := Some expire\<rparr>) (SECRET_KEY e))"

definition get_current_user :: "env \<Rightarrow> database \<Rightarrow> jwt \<Rightarrow> exn + user_doc" where
  "get_current_user e db token =
     (case jwt_decode token (SECRET_KEY e) (utcnow e) of
        None \<Rightarrow> Inl (HTTPException 401 ''Invalid token'')
      | Some payload \<Rightarrow>
          (case sub payload of
             None \<Rightarrow> Inl (HTTPException 401 ''Invalid credentials'')
           | Some user_email \<Rightarrow>
               if user_email = [] then Inl (HTTPException 401 ''Invalid credentials'')
               else (case find_one (\<lambda>u. d_email u = user_email) (users_collection db) of
                       None \<Rightarrow> Inl (HTTPException 401 ''User not found'')
                     | Some user \<Rightarrow> Inr user)))"

definition check_image_url :: "env \<Rightarrow> string \<Rightarrow> bool" where
  "check_image_url e image_url =
     (case requests_get e image_url of
        None \<Rightarrow> False
      | Some (status_code, content_type) \<Rightarrow>
          status_code = 200 \<and>
          str_in ''image'' (case content_type of None \<Rightarrow> [] | Some t \<Rightarrow> t))"

text \<open>The value of an optional attribute of the request model: its default is \<open>None\<close>.\<close>

definition attr :: "'a option field \<Rightarrow> 'a option" where
  "attr f = (case f of Unset \<Rightarrow> None | Given v \<Rightarrow> v)"


subsection \<open>The handlers\<close>

text \<open>
  A handler takes the collections as they are and returns what it raises or returns
  together with the collections as it leaves them. The dependency
  \<open>Depends(get_current_user)\<close> is the argument \<open>current_user\<close>, as in the source.
\<close>

definition create_user :: "env \<Rightarrow> database \<Rightarrow> User \<Rightarrow> (exn + string) \<times> database" where
  "create_user e db user =
     (if find_one (\<lambda>u. d_email u = u_email user) (users_collection db) \<noteq> None
      then (Inl (HTTPException 400 ''Email already registered''), db)
      else (case get_password_hash e (attr (u_password user)) of
              Inl err \<Rightarrow> (Inl err, db)
            | Inr hashed \<Rightarrow>
                (let user_dict = \<lparr>d_name = u_name user, d_email = u_email user,
                                  d_password = hashed,
                                  d_profile_image = attr (u_profile_image user)\<rparr>
                 in (Inr ''User created successfully'',
                     db\<lparr>users_collection := insert_one user_dict (users_collection db)\<rparr>))))"

text \<open>
  The dictionary \<open>update_data\<close> handed to \<open>$set\<close>: \<open>name\<close> and \<open>email\<close> are always
  in it, \<open>password\<close> and \<open>profile_image\<close> only when the request carried them.
\<close>

record update_data =
  s_name :: string
  s_email :: string
  s_password :: "string field"
  s_profile_image :: "string option field"

definition set_fields :: "update_data \<Rightarrow> user_doc \<Rightarrow> user_doc" where
  "set_fields upd doc =
     doc\<lparr>d_name := s_name upd,
         d_email := s_email upd,
         d_password := (case s_password upd of Unset \<Rightarrow> d_password doc | Given h \<Rightarrow> h),
         d_profile_image :=
           (case s_profile_image upd of Unset \<Rightarrow> d_profile_image doc | Given v \<Rightarrow> v)\<rparr>"

definition update_user ::
    "env \<Rightarrow> database \<Rightarrow> User \<Rightarrow> user_doc \<Rightarrow> (exn + string) \<times> database" where
  "update_user e db user current_user =
     (if d_email current_user \<noteq> u_email user
      then (Inl (HTTPException 403 ''You can only update your own profile''), db)
      else if (case attr (u_profile_image user) of
                 None \<Rightarrow> False
               | Some url \<Rightarrow> url \<noteq> [] \<and> \<not> check_image_url e url)
      then (Inl (HTTPException 400 ''Provided image URL is not accessible''), db)
      else (case (case u_password user of
                    Unset \<Rightarrow> Inr Unset
                  | Given p \<Rightarrow> (case get_password_hash e p of
                                 Inl err \<Rightarrow> Inl err
                               | Inr hashed \<Rightarrow> Inr (Given hashed))) of
              Inl err \<Rightarrow> (Inl err, db)
            | Inr password \<Rightarrow>
                (let upd = \<lparr>s_name = u_name user, s_email = u_email user,
                            s_password = password,
                            s_profile_image = u_profile_image user\<rparr>;
                     result = update_one (\<lambda>u. d_email u = d_email current_user)
                                (set_fields upd) (users_collection db);
                     db' = db\<lparr>users_collection := snd result\<rparr>
                 in if fst result = 0
                    then (Inl (HTTPException 404 ''User not found or no changes made''), db')
                    else (Inr ''Profile updated successfully'', db'))))"

record Token =
  access_token :: jwt
  token_type :: string

definition login_for_access_token ::
    "env \<Rightarrow> database \<Rightarrow> string \<Rightarrow> string \<Rightarrow> (exn + Token) \<times> database" where
  "login_for_access_token e db username password =
     (case find_one (\<lambda>u. d_email u = username) (users_collection db) of
        None \<Rightarrow> (Inl (HTTPException 401 ''Invalid email or password''), db)
      | Some user \<Rightarrow>
          if \<not> verify_password e password (d_password user)
          then (Inl (HTTPException 401 ''Invalid email or password''), db)
          else (Inr \<lparr>access_token =
                       create_access_token e \<lparr>sub = Some (d_email user), exp = None\<rparr> None,
                     token_type = ''bearer''\<rparr>, db))"

definition get_user_profile :: "database \<Rightarrow> user_doc \<Rightarrow> (exn + user_doc) \<times> database" where
  "get_user_profile db current_user = (Inr current_user, db)"

definition delete_user_account :: "database \<Rightarrow> user_doc \<Rightarrow> (exn + string) \<times> database" where
  "delete_user_account db current_user =
     (let favorites = delete_many (\<lambda>f. fav_email f = d_email current_user)
                        (favorites_collection db);
          result = delete_one (\<lambda>u. d_email u = d_email current_user) (users_collection db);
          db' = \<lparr>users_collection = snd result, favorites_collection = favorites\<rparr>
      in if fst result = 0 then (Inl (HTTPException 404 ''User not found''), db')
         else (Inr ''User account and associated data deleted successfully'', db'))"

definition add_favorite_recipe ::
    "database \<Rightarrow> FavoriteRecipe \<Rightarrow> user_doc \<Rightarrow> (exn + string) \<times> database" where
  "add_favorite_recipe db recipe current_user =
     (let recipe_dict = \<lparr>fav_image = fr_image recipe, fav_name = fr_name recipe,
                         fav_ingredients = fr_ingredients recipe,
                         fav_instructions = fr_instructions recipe,
                         fav_email = d_email current_user\<rparr>;
          existing_recipe =
            find_one (\<lambda>f. fav_email f = d_email current_user \<and> fav_name f = fav_name recipe_dict)
              (favorites_collection db)
      in if existing_recipe \<noteq> None
         then (Inl (HTTPException 400 ''Recipe with this title already exists for the user''), db)
         else (Inr ''Recipe added successfully'',
               db\<lparr>favorites_collection := insert_one recipe_dict (favorites_collection db)\<rparr>))"

text \<open>\<open>if title:\<close> narrows the query only for a title that is there and not empty.\<close>

definition get_user_recipes ::
    "database \<Rightarrow> string option \<Rightarrow> user_doc \<Rightarrow> (exn + favorite_doc list) \<times> database" where
  "get_user_recipes db title current_user =
     (let query = (\<lambda>f. fav_email f = d_email current_user \<and>
                     (case title of
                        None \<Rightarrow> True
                      | Some t \<Rightarrow> if t = [] then True else fav_name f = t))
      in (Inr (filter query (favorites_collection db)), db))"

definition delete_favorite_recipe ::
    "database \<Rightarrow> string \<Rightarrow> user_doc \<Rightarrow> (exn + string) \<times> database" where
  "delete_favorite_recipe db title current_user =
     (let query = (\<lambda>f. fav_email f = d_email current_user \<and> fav_name f = title)
      in if find_one query (favorites_collection db) = None
         then (Inl (HTTPException 404
                 ''Recipe not found or you don't have permission to delete it''), db)
         else (Inr ''Recipe deleted successfully'',
               db\<lparr>favorites_collection := snd (delete_one query (favorites_collection db))\<rparr>))"

subsection \<open>The routes\<close>

text \<open>
  A route that declares \<open>Depends(get_current_user)\<close> resolves it from the bearer
  token first; when that raises, the handler does not run.
\<close>

definition depends_current_user ::
    "env \<Rightarrow> database \<Rightarrow> jwt \<Rightarrow> (user_doc \<Rightarrow> (exn + 'a) \<times> database) \<Rightarrow> (exn + 'a) \<times> database" where
  "depends_current_user e db token handler =
     (case get_current_user e db token of
        Inl err \<Rightarrow> (Inl err, db)
      | Inr current_user \<Rightarrow> handler current_user)"

datatype request =
    PostUsers User
  | PutUsers jwt User
  | PostToken string string
  | GetUsersProfile jwt
  | DeleteAccount jwt
  | PostRecipes jwt FavoriteRecipe
  | GetRecipes jwt "string option"
  | DeleteRecipes jwt string

text \<open>The collections after a request has been served.\<close>

fun serve :: "env \<Rightarrow> request \<Rightarrow> database \<Rightarrow> database" where
  "serve e (PostUsers user) db = snd (create_user e db user)"
| "serve e (PutUsers token user) db =
     snd (depends_current_user e db token (update_user e db user))"
| "serve e (PostToken username password) db =
     snd (login_for_access_token e db username password)"
| "serve e (GetUsersProfile token) db =
     snd (depends_current_user e db token (get_user_profile db))"
| "serve e (DeleteAccount token) db =
     snd (depends_current_user e db token (delete_user_account db))"
| "serve e (PostRecipes token recipe) db =
     snd (depends_current_user e db token (add_favorite_recipe db recipe))"
| "serve e (GetRecipes token title) db =
     snd (depends_current_user e db token (get_user_recipes db title))"
| "serve e (DeleteRecipes token title) db =
     snd (depends_current_user e db token (delete_favorite_recipe db title))"

text \<open>Requests served one after the other, each with its own reading of the outside.\<close>

fun serve_all :: "(env \<times> request) list \<Rightarrow> database \<Rightarrow> database" where
  "serve_all [] db = db"
| "serve_all ((e, r) # rs) db = serve_all rs (serve e r db)"


section \<open>The properties, in the words of the specification\<close>

text \<open>
  A whitespace-delimited token of \<open>s\<close>: a non-empty run of \<open>s\<close> without whitespace
  that is bounded on either side by whitespace or by the end of \<open>s\<close>.
\<close>

definition ws_token :: "string \<Rightarrow> string \<Rightarrow> bool" where
  "ws_token s t \<longleftrightarrow>
     t \<noteq> [] \<and> (\<forall>c \<in> set t. \<not> is_space c) \<and>
     (\<exists>pre suf. s = pre @ t @ suf \<and> (pre = [] \<or> is_space (last pre)) \<and>
        (suf = [] \<or> is_space (hd suf)))"

text \<open>\<open>s\<close> contains \<open>t\<close> as a case-insensitive substring.\<close>

definition ci_contains :: "string \<Rightarrow> string \<Rightarrow> bool" where
  "ci_contains s t \<longleftrightarrow> (\<exists>pre suf. lower s = pre @ lower t @ suf)"

text \<open>The name of the recipe contains every token of the query, in any order.\<close>

definition name_matches :: "string \<Rightarrow> recipe \<Rightarrow> bool" where
  "name_matches query recipe \<longleftrightarrow>
     (\<forall>t. ws_token query t \<longrightarrow> ci_contains (r_name recipe) t)"

text \<open>
  For each requested ingredient, at least one entry of the recipe's ingredient list
  contains it.
\<close>

definition ingredients_match :: "string list \<Rightarrow> recipe \<Rightarrow> bool" where
  "ingredients_match ingredients recipe \<longleftrightarrow>
     (\<forall>i \<in> set ingredients. \<exists>item \<in> set (r_ingredients recipe). ci_contains item i)"


text \<open>
  The key of a favorite, and the invariant of the favorites store: no two favorites
  share the pair of owner and name.
\<close>

definition fav_key :: "favorite_doc \<Rightarrow> string \<times> string" where
  "fav_key f = (fav_email f, fav_name f)"

definition fav_unique :: "database \<Rightarrow> bool" where
  "fav_unique db \<longleftrightarrow> distinct (map fav_key (favorites_collection db))"

text \<open>The subject of a token: the \<open>sub\<close> claim it carries, if it carries one.\<close>

definition token_subject :: "jwt \<Rightarrow> string option" where
  "token_subject token = (case token of Garbage \<Rightarrow> None | Signed k c \<Rightarrow> sub c)"


section \<open>Sample data\<close>

text \<open>
  A reading of the outside with a toy password context, one user and one of her
  favorites; the concrete instances below are run on them.
\<close>

definition ex_env :: env where
  "ex_env = \<lparr>SECRET_KEY = ''k'', utcnow = 1000, pwd_hash = (\<lambda>p. ''#'' @ p),
             pwd_verify = (\<lambda>p h. h = ''#'' @ p), requests_get = (\<lambda>url. None)\<rparr>"

definition ex_ann :: user_doc where
  "ex_ann = \<lparr>d_name = ''Ann'', d_email = ''ann@x.org'', d_password = ''#pw'',
             d_profile_image = None\<rparr>"

definition ex_pie :: favorite_doc where
  "ex_pie = \<lparr>fav_image = ''pie.png'', fav_name = ''Pie'', fav_ingredients = [''flour''],
             fav_instructions = ''Bake.'', fav_email = ''ann@x.org''\<rparr>"

definition ex_db :: database where
  "ex_db = \<lparr>users_collection = [ex_ann], favorites_collection = [ex_pie]\<rparr>"

lemmas ex_defs = ex_env_def ex_ann_def ex_pie_def ex_db_def


section \<open>Facts about the string operations\<close>

lemma str_in_iff: "str_in w s \<longleftrightarrow> (\<exists>pre suf. s = pre @ w @ suf)"
proof -
  have "str_in w s \<longleftrightarrow> sublist w s"
    by (induction s) (simp_all add: sublist_Cons_right)
  then show ?thesis by (simp add: sublist_def)
qed

lemma is_space_lower_char [simp]: "is_space (lower_char c) \<longleftrightarrow> is_space c"
  by (auto simp: is_space_def lower_char_def Let_def)

lemma lower_char_idem [simp]: "lower_char (lower_char c) = lower_char c"
  by (auto simp: lower_char_def Let_def)

lemma lower_idem [simp]: "lower (lower s) = lower s"
  by (simp add: lower_def)

lemma dropWhile_space_lower:
  "dropWhile is_space (lower s) = lower (dropWhile is_space s)"
  by (simp add: lower_def dropWhile_map comp_def)

lemma dropWhile_nonspace_lower:
  "dropWhile (\<lambda>x. \<not> is_space x) (lower s) = lower (dropWhile (\<lambda>x. \<not> is_space x) s)"
  by (simp add: lower_def dropWhile_map comp_def)

lemma takeWhile_nonspace_lower:
  "takeWhile (\<lambda>x. \<not> is_space x) (lower s) = lower (takeWhile (\<lambda>x. \<not> is_space x) s)"
  by (simp add: lower_def takeWhile_map comp_def)

lemma split_Nil: "dropWhile is_space s = [] \<Longrightarrow> split s = []"
  by (simp add: split.simps[of s] del: dropWhile_eq_Nil_conv)

lemma split_Cons:
  "dropWhile is_space s = c # cs \<Longrightarrow>
   split s = (c # takeWhile (\<lambda>x. \<not> is_space x) cs) # split (dropWhile (\<lambda>x. \<not> is_space x) cs)"
  by (simp add: split.simps[of s])

lemma split_all_space: "(\<forall>c \<in> set s. is_space c) \<Longrightarrow> split s = []"
  by (rule split_Nil) simp

lemma split_lower: "split (lower s) = map lower (split s)"
proof (induction s rule: split.induct)
  case (1 s)
  show ?case
  proof (cases "dropWhile is_space s")
    case Nil
    then have "dropWhile is_space (lower s) = []"
      by (simp only: dropWhile_space_lower) (simp add: lower_def)
    with Nil show ?thesis
      by (simp add: split_Nil del: dropWhile_eq_Nil_conv)
  next
    case (Cons c cs)
    have ih: "split (lower (dropWhile (\<lambda>x. \<not> is_space x) cs)) =
              map lower (split (dropWhile (\<lambda>x. \<not> is_space x) cs))"
      using "1.IH" [OF Cons] .
    have low: "dropWhile is_space (lower s) = lower_char c # lower cs"
      by (simp add: dropWhile_space_lower Cons) (simp add: lower_def)
    show ?thesis
      by (simp add: split_Cons [OF low] split_Cons [OF Cons] dropWhile_nonspace_lower
            takeWhile_nonspace_lower ih) (simp add: lower_def)
  qed
qed

lemma ws_token_space_Cons:
  assumes "is_space c"
  shows "ws_token (c # s) t \<longleftrightarrow> ws_token s t"
proof
  assume "ws_token (c # s) t"
  then obtain pre suf where t: "t \<noteq> []" "\<forall>c \<in> set t. \<not> is_space c"
    and eq: "c # s = pre @ t @ suf" and pre: "pre = [] \<or> is_space (last pre)"
    and suf: "suf = [] \<or> is_space (hd suf)"
    by (auto simp: ws_token_def)
  show "ws_token s t"
  proof (cases pre)
    case Nil
    with eq t have "c \<in> set t" by (cases t) auto
    with t assms show ?thesis by blast
  next
    case (Cons p pre')
    with eq have s: "s = pre' @ t @ suf" by simp
    from pre Cons have "pre' = [] \<or> is_space (last pre')" by (auto split: if_splits)
    with s t suf show ?thesis unfolding ws_token_def by blast
  qed
next
  assume "ws_token s t"
  then obtain pre suf where t: "t \<noteq> []" "\<forall>c \<in> set t. \<not> is_space c"
    and eq: "s = pre @ t @ suf" and pre: "pre = [] \<or> is_space (last pre)"
    and suf: "suf = [] \<or> is_space (hd suf)"
    by (auto simp: ws_token_def)
  have "c # s = (c # pre) @ t @ suf" using eq by simp
  moreover have "is_space (last (c # pre))" using pre assms by auto
  ultimately show "ws_token (c # s) t"
    unfolding ws_token_def using t suf by blast
qed

lemma ws_token_dropWhile: "ws_token (dropWhile is_space s) t \<longleftrightarrow> ws_token s t"
  by (induction s) (simp_all add: ws_token_space_Cons)

lemma ws_token_Nil: "\<not> ws_token [] t"
  by (auto simp: ws_token_def)

lemma ws_token_word:
  assumes w: "w \<noteq> []" "\<forall>c \<in> set w. \<not> is_space c"
    and rest: "rest = [] \<or> is_space (hd rest)"
  shows "ws_token (w @ rest) t \<longleftrightarrow> t = w \<or> ws_token rest t"
proof
  assume "ws_token (w @ rest) t"
  then obtain pre suf where t: "t \<noteq> []" "\<forall>c \<in> set t. \<not> is_space c"
    and eq: "w @ rest = pre @ t @ suf" and pre: "pre = [] \<or> is_space (last pre)"
    and suf: "suf = [] \<or> is_space (hd suf)"
    by (auto simp: ws_token_def)
  from eq consider
      (inside) us where "w = pre @ us" "us @ rest = t @ suf"
    | (behind) us where "w @ us = pre" "rest = us @ t @ suf"
    by (auto simp: append_eq_append_conv2)
  then show "t = w \<or> ws_token rest t"
  proof cases
    case inside
    have "pre = []"
    proof (rule ccontr)
      assume ne: "pre \<noteq> []"
      then have "last pre \<in> set w" using inside(1) by simp
      with w pre ne show False by blast
    qed
    with inside have "w @ rest = t @ suf" by simp
    then consider
        (shorter) vs where "w = t @ vs" "vs @ rest = suf"
      | (longer) vs where "w @ vs = t" "rest = vs @ suf"
      by (auto simp: append_eq_append_conv2)
    then have "t = w"
    proof cases
      case shorter
      have "vs = []"
      proof (rule ccontr)
        assume ne: "vs \<noteq> []"
        then have "suf \<noteq> []" and "hd suf = hd vs" using shorter(2) by auto
        moreover have "hd vs \<in> set w" using ne shorter(1) by simp
        ultimately show False using w suf by auto
      qed
      with shorter show ?thesis by simp
    next
      case longer
      have "vs = []"
      proof (rule ccontr)
        assume ne: "vs \<noteq> []"
        then have "rest \<noteq> []" and "hd rest = hd vs" using longer(2) by auto
        moreover have "hd vs \<in> set t" using ne longer(1) by auto
        ultimately show False using t rest by auto
      qed
      with longer show ?thesis by simp
    qed
    then show ?thesis ..
  next
    case behind
    have ne: "us \<noteq> []"
    proof
      assume "us = []"
      with behind have "pre = w" by simp
      with w have "pre \<noteq> []" and "\<not> is_space (last pre)" by auto
      with pre show False by blast
    qed
    then have "last us = last pre" using behind(1) by auto
    moreover have "pre \<noteq> []" using behind(1) ne by auto
    ultimately have "is_space (last us)" using pre by auto
    with behind(2) t suf have "ws_token rest t"
      unfolding ws_token_def by blast
    then show ?thesis ..
  qed
next
  assume "t = w \<or> ws_token rest t"
  then show "ws_token (w @ rest) t"
  proof
    assume "t = w"
    then have "w @ rest = [] @ t @ rest" by simp
    with w rest \<open>t = w\<close> show ?thesis
      unfolding ws_token_def by blast
  next
    assume "ws_token rest t"
    then obtain pre suf where t: "t \<noteq> []" "\<forall>c \<in> set t. \<not> is_space c"
      and eq: "rest = pre @ t @ suf" and pre: "pre = [] \<or> is_space (last pre)"
      and suf: "suf = [] \<or> is_space (hd suf)"
      by (auto simp: ws_token_def)
    have ne: "pre \<noteq> []"
    proof
      assume "pre = []"
      with eq t have "rest \<noteq> []" and "hd rest \<in> set t" by auto
      with rest t show False by auto
    qed
    with pre have "is_space (last (w @ pre))" by simp
    moreover have "w @ rest = (w @ pre) @ t @ suf" using eq by simp
    ultimately show ?thesis
      unfolding ws_token_def using t suf by blast
  qed
qed

lemma set_split: "set (split s) = {t. ws_token s t}"
proof (induction s rule: split.induct)
  case (1 s)
  show ?case
  proof (cases "dropWhile is_space s")
    case Nil
    have "\<not> ws_token s t" for t
    proof -
      have "ws_token [] t \<longleftrightarrow> ws_token s t"
        using ws_token_dropWhile [of s t] by (simp only: Nil)
      then show ?thesis using ws_token_Nil [of t] by blast
    qed
    with Nil show ?thesis by (simp add: split_Nil del: dropWhile_eq_Nil_conv)
  next
    case (Cons c cs)
    let ?w = "c # takeWhile (\<lambda>x. \<not> is_space x) cs"
    let ?rest = "dropWhile (\<lambda>x. \<not> is_space x) cs"
    have c: "\<not> is_space c"
      using hd_dropWhile [of is_space s] Cons by simp
    have w: "?w \<noteq> []" "\<forall>x \<in> set ?w. \<not> is_space x"
      using c by (auto dest: set_takeWhileD)
    have rest: "?rest = [] \<or> is_space (hd ?rest)"
      using hd_dropWhile [of "\<lambda>x. \<not> is_space x" cs] by auto
    have "ws_token s t \<longleftrightarrow> ws_token (?w @ ?rest) t" for t
      using ws_token_dropWhile [of s t] by (simp add: Cons)
    then have "ws_token s t \<longleftrightarrow> t = ?w \<or> ws_token ?rest t" for t
      using ws_token_word [OF w rest] by simp
    moreover have "set (split ?rest) = {t. ws_token ?rest t}"
      using "1.IH" [OF Cons] .
    ultimately show ?thesis
      by (auto simp: split_Cons [OF Cons])
  qed
qed




section \<open>Recipe search: the claims\<close>

lemma words_match_iff:
  "(\<forall>word \<in> set (split (lower query)). str_in word (lower n)) \<longleftrightarrow>
   (\<forall>t. ws_token query t \<longrightarrow> ci_contains n t)"
  by (auto simp: split_lower set_split str_in_iff ci_contains_def)

lemma items_match_iff:
  "list_all (\<lambda>ingredient. list_ex (\<lambda>item. str_in (lower ingredient) (lower item)) items)
     (map lower ingredients) \<longleftrightarrow>
   (\<forall>i \<in> set ingredients. \<exists>item \<in> set items. ci_contains item i)"
  by (simp add: list_all_iff list_ex_iff str_in_iff ci_contains_def)

text \<open>
  C1. \<open>/search\<close> answers 400 when the query is empty, whatever the dataset; on every
  other query and every catalog it returns exactly the recipes, in catalog order, whose
  name contains every whitespace-delimited token of the query as a case-insensitive
  substring.
\<close>

theorem search_by_name:
  "search py_eval db [] = Response (JSONResponse 400 ''Query parameter is required.'') \<and>
   (query \<noteq> [] \<longrightarrow>
      search py_eval (Present (Fetched rows)) query =
        Results (Inr (filter (name_matches query) (map (structured py_eval) rows))))"
  by (simp add: search_def search_recipes_def get_all_recipes_def name_matches_def
        words_match_iff cong: filter_cong)

theorem search_by_name_witness:
  \<open>search (\<lambda>t. []) (Present (Fetched
      [(1, ''Soup with CHICKEN'', ''[]'', ''Stir.''),
       (2, ''Tomato Soup'', ''[]'', ''Mix.'')])) ''Chicken Soup'' =
    Results (Inr
      [\<lparr>r_id = 1, r_name = ''Soup with CHICKEN'', r_ingredients = [],
         r_instructions = ''Stir.''\<rparr>]) \<and>
   filter (name_matches ''Chicken Soup'')
      (map (structured (\<lambda>t. []))
        [(1, ''Soup with CHICKEN'', ''[]'', ''Stir.''),
         (2, ''Tomato Soup'', ''[]'', ''Mix.'')]) =
      [\<lparr>r_id = 1, r_name = ''Soup with CHICKEN'', r_ingredients = [],
         r_instructions = ''Stir.''\<rparr>]\<close>
proof -
  have run: "search (\<lambda>t. []) (Present (Fetched
      [(1, ''Soup with CHICKEN'', ''[]'', ''Stir.''),
       (2, ''Tomato Soup'', ''[]'', ''Mix.'')])) ''Chicken Soup'' =
    Results (Inr
      [\<lparr>r_id = 1, r_name = ''Soup with CHICKEN'', r_ingredients = [],
         r_instructions = ''Stir.''\<rparr>])"
    by code_simp
  show ?thesis
    using run search_by_name [of "\<lambda>t. []" _ "''Chicken Soup''"
        "[(1, ''Soup with CHICKEN'', ''[]'', ''Stir.''), (2, ''Tomato Soup'', ''[]'', ''Mix.'')]"]
    by simp
qed

text \<open>
  C2. \<open>/search_by_ingredients\<close> answers 400 when the list of requested ingredients is
  empty, whatever the dataset; on every other list and every catalog it returns exactly
  the recipes, in catalog order, in which every requested ingredient is contained, as a
  case-insensitive substring, in at least one entry of the recipe's ingredient list.
\<close>

theorem search_by_ingredients_exact:
  "search_by_ingredients py_eval db [] =
     Response (JSONResponse 400 ''Ingredients list is required.'') \<and>
   (ingredients \<noteq> [] \<longrightarrow>
      search_by_ingredients py_eval (Present (Fetched rows)) ingredients =
        Results (Inr (filter (ingredients_match ingredients)
                        (map (structured py_eval) rows))))"
  by (simp add: search_by_ingredients_def search_recipes_by_ingredients_def
        get_all_recipes_def ingredients_match_def items_match_iff cong: filter_cong)

theorem search_by_ingredients_exact_witness:
  \<open>search_by_ingredients (\<lambda>t. if t = ''["Sea salt", "2 eggs"]'' then [''Sea salt'', ''2 eggs'']
                                else [''flour''])
     (Present (Fetched
        [(1, ''Omelette'', ''["Sea salt", "2 eggs"]'', ''Fry.''),
         (2, ''Bread'', ''["flour"]'', ''Bake.'')])) [''salt'', ''EGG''] =
    Results (Inr
      [\<lparr>r_id = 1, r_name = ''Omelette'', r_ingredients = [''Sea salt'', ''2 eggs''],
         r_instructions = ''Fry.''\<rparr>]) \<and>
   filter (ingredients_match [''salt'', ''EGG''])
     (map (structured (\<lambda>t. if t = ''["Sea salt", "2 eggs"]'' then [''Sea salt'', ''2 eggs'']
                              else [''flour'']))
        [(1, ''Omelette'', ''["Sea salt", "2 eggs"]'', ''Fry.''),
         (2, ''Bread'', ''["flour"]'', ''Bake.'')]) =
      [\<lparr>r_id = 1, r_name = ''Omelette'', r_ingredients = [''Sea salt'', ''2 eggs''],
         r_instructions = ''Fry.''\<rparr>]\<close>
proof -
  have run: \<open>search_by_ingredients
       (\<lambda>t. if t = ''["Sea salt", "2 eggs"]'' then [''Sea salt'', ''2 eggs''] else [''flour''])
       (Present (Fetched
          [(1, ''Omelette'', ''["Sea salt", "2 eggs"]'', ''Fry.''),
           (2, ''Bread'', ''["flour"]'', ''Bake.'')])) [''salt'', ''EGG''] =
      Results (Inr
        [\<lparr>r_id = 1, r_name = ''Omelette'', r_ingredients = [''Sea salt'', ''2 eggs''],
           r_instructions = ''Fry.''\<rparr>])\<close>
    by code_simp
  show ?thesis
    using run search_by_ingredients_exact
      [of \<open>\<lambda>t. if t = ''["Sea salt", "2 eggs"]'' then [''Sea salt'', ''2 eggs''] else [''flour'']\<close>
          _ \<open>[''salt'', ''EGG'']\<close>
          \<open>[(1, ''Omelette'', ''["Sea salt", "2 eggs"]'', ''Fry.''),
            (2, ''Bread'', ''["flour"]'', ''Bake.'')]\<close>]
    by simp
qed

text \<open>
  When the dataset does not load, the search functions hand the error response on and
  the endpoint wraps it like a result.
\<close>

lemma search_dataset_unavailable:
  "query \<noteq> [] \<Longrightarrow>
   search py_eval Missing query =
     Results (Inl (JSONResponse 404 ''Database file not found.''))"
  by (simp add: search_def search_recipes_def get_all_recipes_def)


text \<open>
  C10. A query that is not empty but holds whitespace only passes the emptiness check
  of \<open>/search\<close>, has no tokens, and so returns the whole catalog.
\<close>

theorem search_whitespace_query:
  assumes "query \<noteq> []" and "\<forall>c \<in> set query. is_space c"
  shows "search py_eval (Present (Fetched rows)) query =
           Results (Inr (map (structured py_eval) rows))"
proof -
  have "split query = []"
    using assms(2) by (rule split_all_space)
  then have "split (lower query) = []"
    by (simp add: split_lower)
  with assms(1) show ?thesis
    by (simp add: search_def search_recipes_def get_all_recipes_def)
qed

theorem search_whitespace_query_witness:
  "[CHR '' '', CHR 0x09] \<noteq> [] \<and> is_space CHR '' '' \<and> is_space CHR 0x09 \<and>
   search (\<lambda>t. []) (Present (Fetched [(7, ''Tomato Soup'', ''[]'', ''Mix.'')]))
     [CHR '' '', CHR 0x09] =
     Results (Inr [\<lparr>r_id = 7, r_name = ''Tomato Soup'', r_ingredients = [],
                    r_instructions = ''Mix.''\<rparr>])"
proof -
  have ws: "\<forall>c \<in> set [CHR '' '', CHR 0x09]. is_space c"
    by (simp add: is_space_def)
  have ne: "[CHR '' '', CHR 0x09] \<noteq> []"
    by simp
  from search_whitespace_query [OF ne ws, of "\<lambda>t. []" "[(7, ''Tomato Soup'', ''[]'', ''Mix.'')]"]
    ws show ?thesis
    by (simp add: structured_def)
qed


section \<open>Facts about the collection operations\<close>

lemma find_one_None: "find_one P xs = None \<longleftrightarrow> (\<forall>x \<in> set xs. \<not> P x)"
  by (auto simp: find_one_def find_None_iff)

lemma find_one_Some_iff:
  "find_one P xs = Some x \<longleftrightarrow>
     (\<exists>pre post. xs = pre @ x # post \<and> P x \<and> (\<forall>y \<in> set pre. \<not> P y))"
proof (induction xs)
  case Nil
  show ?case by (simp add: find_one_def)
next
  case (Cons a xs)
  show ?case
  proof (cases "P a")
    case True
    have "(\<exists>pre post. a # xs = pre @ x # post \<and> P x \<and> (\<forall>y \<in> set pre. \<not> P y)) \<longleftrightarrow> a = x"
    proof
      assume "\<exists>pre post. a # xs = pre @ x # post \<and> P x \<and> (\<forall>y \<in> set pre. \<not> P y)"
      then obtain pre post where eq: "a # xs = pre @ x # post" and no: "\<forall>y \<in> set pre. \<not> P y"
        by blast
      show "a = x"
      proof (cases pre)
        case Nil
        with eq show ?thesis by simp
      next
        case (Cons b pre')
        with eq no True show ?thesis by auto
      qed
    next
      assume "a = x"
      with True have "a # xs = [] @ x # xs \<and> P x \<and> (\<forall>y \<in> set []. \<not> P y)" by simp
      then show "\<exists>pre post. a # xs = pre @ x # post \<and> P x \<and> (\<forall>y \<in> set pre. \<not> P y)"
        by blast
    qed
    with True show ?thesis by (simp add: find_one_def)
  next
    case False
    have "(\<exists>pre post. a # xs = pre @ x # post \<and> P x \<and> (\<forall>y \<in> set pre. \<not> P y)) \<longleftrightarrow>
          (\<exists>pre post. xs = pre @ x # post \<and> P x \<and> (\<forall>y \<in> set pre. \<not> P y))"
    proof
      assume "\<exists>pre post. a # xs = pre @ x # post \<and> P x \<and> (\<forall>y \<in> set pre. \<not> P y)"
      then obtain pre post where eq: "a # xs = pre @ x # post" and px: "P x"
        and no: "\<forall>y \<in> set pre. \<not> P y"
        by blast
      from eq px False obtain pre' where "pre = a # pre'"
        by (cases pre) auto
      with eq no px show "\<exists>pre post. xs = pre @ x # post \<and> P x \<and> (\<forall>y \<in> set pre. \<not> P y)"
        by auto
    next
      assume "\<exists>pre post. xs = pre @ x # post \<and> P x \<and> (\<forall>y \<in> set pre. \<not> P y)"
      then obtain pre post where "xs = pre @ x # post" "P x" "\<forall>y \<in> set pre. \<not> P y"
        by blast
      with False have "a # xs = (a # pre) @ x # post \<and> P x \<and> (\<forall>y \<in> set (a # pre). \<not> P y)"
        by simp
      then show "\<exists>pre post. a # xs = pre @ x # post \<and> P x \<and> (\<forall>y \<in> set pre. \<not> P y)"
        by blast
    qed
    with False Cons.IH show ?thesis by (simp add: find_one_def)
  qed
qed

lemma update_one_no_match: "\<forall>x \<in> set xs. \<not> P x \<Longrightarrow> update_one P f xs = (0, xs)"
  by (induction xs) simp_all

lemma update_one_first:
  "\<forall>y \<in> set pre. \<not> P y \<Longrightarrow> P x \<Longrightarrow>
   update_one P f (pre @ x # post) = (if f x = x then 0 else 1, pre @ f x # post)"
  by (induction pre) simp_all

lemma delete_one_no_match: "\<forall>x \<in> set xs. \<not> P x \<Longrightarrow> delete_one P xs = (0, xs)"
  by (induction xs) simp_all

lemma delete_one_first:
  "\<forall>y \<in> set pre. \<not> P y \<Longrightarrow> P x \<Longrightarrow> delete_one P (pre @ x # post) = (1, pre @ post)"
  by (induction pre) simp_all

lemma delete_one_count: "fst (delete_one P xs) = 0 \<longleftrightarrow> (\<forall>x \<in> set xs. \<not> P x)"
  by (induction xs) (auto split: prod.splits)

lemma set_delete_one: "set (snd (delete_one P xs)) \<subseteq> set xs"
  by (induction xs) (auto split: prod.splits)

lemma distinct_map_delete_one:
  "distinct (map k xs) \<Longrightarrow> distinct (map k (snd (delete_one P xs)))"
proof (induction xs)
  case Nil
  show ?case by simp
next
  case (Cons a xs)
  then show ?case
    using set_delete_one [of P xs] by (auto split: prod.splits)
qed

lemma update_one_count:
  "fst (update_one P f xs) = 0 \<longleftrightarrow> (case find_one P xs of None \<Rightarrow> True | Some x \<Rightarrow> f x = x)"
  by (induction xs) (auto simp: find_one_def split: prod.splits)

lemma update_one_unchanged: "fst (update_one P f xs) = 0 \<Longrightarrow> snd (update_one P f xs) = xs"
  by (induction xs) (auto split: prod.splits if_splits)


section \<open>Account service: the claims\<close>

subsection \<open>Login\<close>

lemma decode_fresh_token:
  "jwt_decode (create_access_token e \<lparr>sub = Some s, exp = None\<rparr> None) (SECRET_KEY e) t =
     (if utcnow e + 30 * 60 < t then None
      else Some \<lparr>sub = Some s, exp = Some (utcnow e + 30 * 60)\<rparr>)"
  by (simp add: jwt_decode_def create_access_token_def jwt_encode_def
        ACCESS_TOKEN_EXPIRE_MINUTES_def)

text \<open>
  C3. \<open>login\<close> raises 401 exactly when no user has the email or the password does not
  verify against the hash stored in the record the lookup yields. Otherwise it returns
  a bearer token that decodes, under the signing key and at any time up to its expiry,
  to the user's email as subject and to an expiry of 30 minutes (1800 seconds) after
  issuance. The collections are left as they were.
\<close>

theorem login:
  "(fst (login_for_access_token e db username password) =
      Inl (HTTPException 401 ''Invalid email or password'') \<longleftrightarrow>
    (\<forall>u \<in> set (users_collection db). d_email u \<noteq> username) \<or>
    (\<exists>user. find_one (\<lambda>u. d_email u = username) (users_collection db) = Some user \<and>
       \<not> verify_password e password (d_password user))) \<and>
   (fst (login_for_access_token e db username password) \<noteq>
      Inl (HTTPException 401 ''Invalid email or password'') \<longrightarrow>
    (\<exists>user tok.
       find_one (\<lambda>u. d_email u = username) (users_collection db) = Some user \<and>
       d_email user = username \<and>
       fst (login_for_access_token e db username password) = Inr tok \<and>
       token_type tok = ''bearer'' \<and>
       (\<forall>t. jwt_decode (access_token tok) (SECRET_KEY e) t =
          (if utcnow e + 30 * 60 < t then None
           else Some \<lparr>sub = Some (d_email user), exp = Some (utcnow e + 30 * 60)\<rparr>)))) \<and>
   snd (login_for_access_token e db username password) = db"
proof (cases "find_one (\<lambda>u. d_email u = username) (users_collection db)")
  case None
  have res: "login_for_access_token e db username password =
               (Inl (HTTPException 401 ''Invalid email or password''), db)"
    by (simp add: login_for_access_token_def None)
  have "\<forall>u \<in> set (users_collection db). d_email u \<noteq> username"
    using None by (simp add: find_one_None)
  then show ?thesis
    by (simp add: res)
next
  case (Some user)
  then have mail: "d_email user = username"
    and ex: "\<exists>u \<in> set (users_collection db). d_email u = username"
    by (auto simp: find_one_Some_iff)
  show ?thesis
  proof (cases "verify_password e password (d_password user)")
    case True
    have res: "login_for_access_token e db username password =
                 (Inr \<lparr>access_token =
                         create_access_token e \<lparr>sub = Some (d_email user), exp = None\<rparr> None,
                       token_type = ''bearer''\<rparr>, db)"
      by (simp add: login_for_access_token_def Some True)
    from True ex mail show ?thesis
      by (simp add: res Some decode_fresh_token)
  next
    case False
    have res: "login_for_access_token e db username password =
                 (Inl (HTTPException 401 ''Invalid email or password''), db)"
      by (simp add: login_for_access_token_def Some False)
    from False show ?thesis
      by (simp add: res Some)
  qed
qed

theorem login_witness:
  "fst (login_for_access_token ex_env ex_db ''ann@x.org'' ''pw'') \<noteq>
     Inl (HTTPException 401 ''Invalid email or password'') \<and>
   (\<exists>tok. fst (login_for_access_token ex_env ex_db ''ann@x.org'' ''pw'') = Inr tok \<and>
      jwt_decode (access_token tok) ''k'' 1000 =
        Some \<lparr>sub = Some ''ann@x.org'', exp = Some 2800\<rparr>)"
proof -
  have ok: "fst (login_for_access_token ex_env ex_db ''ann@x.org'' ''pw'') \<noteq>
              Inl (HTTPException 401 ''Invalid email or password'')"
    by (simp add: login_for_access_token_def find_one_def verify_password_def ex_defs)
  with login [of ex_env ex_db "''ann@x.org''" "''pw''"]
  obtain user tok where
    u: "find_one (\<lambda>u. d_email u = ''ann@x.org'') (users_collection ex_db) = Some user"
    and t: "fst (login_for_access_token ex_env ex_db ''ann@x.org'' ''pw'') = Inr tok"
    and d: "\<forall>t. jwt_decode (access_token tok) (SECRET_KEY ex_env) t =
          (if utcnow ex_env + 30 * 60 < t then None
           else Some \<lparr>sub = Some (d_email user), exp = Some (utcnow ex_env + 30 * 60)\<rparr>)"
    by blast
  from u have "user = ex_ann"
    by (simp add: find_one_def ex_defs)
  with d have "jwt_decode (access_token tok) ''k'' 1000 =
        Some \<lparr>sub = Some ''ann@x.org'', exp = Some 2800\<rparr>"
    by (simp add: ex_defs)
  with ok t show ?thesis by blast
qed

subsection \<open>Registration\<close>

text \<open>
  C4. \<open>register\<close> raises the conflict (status 400) and leaves the store unchanged when
  a user with the email is present; otherwise, given a password, it appends a user
  whose password field is the hash of that password; and after a successful
  registration any registration under the same email raises the conflict and leaves
  the store unchanged.
\<close>

theorem register:
  "((\<exists>u \<in> set (users_collection db). d_email u = u_email user) \<longrightarrow>
      create_user e db user = (Inl (HTTPException 400 ''Email already registered''), db)) \<and>
   ((\<forall>u \<in> set (users_collection db). d_email u \<noteq> u_email user) \<and>
      attr (u_password user) = Some p \<longrightarrow>
      create_user e db user =
        (Inr ''User created successfully'',
         db\<lparr>users_collection := users_collection db @
              [\<lparr>d_name = u_name user, d_email = u_email user, d_password = pwd_hash e p,
                d_profile_image = attr (u_profile_image user)\<rparr>]\<rparr>)) \<and>
   (create_user e db user = (Inr msg, db') \<and> u_email user' = u_email user \<longrightarrow>
      create_user e' db' user' = (Inl (HTTPException 400 ''Email already registered''), db'))"
proof (intro conjI impI)
  assume "\<exists>u \<in> set (users_collection db). d_email u = u_email user"
  then have "find_one (\<lambda>u. d_email u = u_email user) (users_collection db) \<noteq> None"
    by (simp add: find_one_None)
  then show "create_user e db user = (Inl (HTTPException 400 ''Email already registered''), db)"
    by (simp add: create_user_def)
next
  assume "(\<forall>u \<in> set (users_collection db). d_email u \<noteq> u_email user) \<and>
          attr (u_password user) = Some p"
  then have "find_one (\<lambda>u. d_email u = u_email user) (users_collection db) = None"
    and "attr (u_password user) = Some p"
    by (simp_all add: find_one_None)
  then show "create_user e db user =
        (Inr ''User created successfully'',
         db\<lparr>users_collection := users_collection db @
              [\<lparr>d_name = u_name user, d_email = u_email user, d_password = pwd_hash e p,
                d_profile_image = attr (u_profile_image user)\<rparr>]\<rparr>)"
    by (simp add: create_user_def get_password_hash_def insert_one_def)
next
  assume a: "create_user e db user = (Inr msg, db') \<and> u_email user' = u_email user"
  then have "\<exists>u \<in> set (users_collection db'). d_email u = u_email user"
    by (auto simp: create_user_def insert_one_def Let_def split: if_splits sum.splits)
  with a have "find_one (\<lambda>u. d_email u = u_email user') (users_collection db') \<noteq> None"
    by (simp add: find_one_None)
  then show "create_user e' db' user' =
               (Inl (HTTPException 400 ''Email already registered''), db')"
    by (simp add: create_user_def)
qed

theorem register_witness:
  "create_user ex_env ex_db
     \<lparr>u_name = ''Bob'', u_email = ''bob@x.org'', u_password = Given (Some ''s3''),
      u_profile_image = Unset\<rparr> =
     (Inr ''User created successfully'',
      ex_db\<lparr>users_collection :=
        [ex_ann, \<lparr>d_name = ''Bob'', d_email = ''bob@x.org'', d_password = ''#s3'',
                  d_profile_image = None\<rparr>]\<rparr>) \<and>
   create_user ex_env ex_db
     \<lparr>u_name = ''Ann again'', u_email = ''ann@x.org'', u_password = Given (Some ''x''),
      u_profile_image = Unset\<rparr> =
     (Inl (HTTPException 400 ''Email already registered''), ex_db)"
  using register [of ex_db "\<lparr>u_name = ''Bob'', u_email = ''bob@x.org'',
                             u_password = Given (Some ''s3''), u_profile_image = Unset\<rparr>"
                     ex_env "''s3''"]
    register [of ex_db "\<lparr>u_name = ''Ann again'', u_email = ''ann@x.org'',
                          u_password = Given (Some ''x''), u_profile_image = Unset\<rparr>" ex_env]
  by (simp add: ex_defs attr_def)

text \<open>
  A request without a password passes the model's validation; on a fresh email the
  hashing then raises and nothing is stored.
\<close>

lemma create_user_without_password:
  assumes "\<forall>u \<in> set (users_collection db). d_email u \<noteq> u_email user"
    and "attr (u_password user) = None"
  shows "create_user e db user = (Inl TypeError, db)"
proof -
  have "find_one (\<lambda>u. d_email u = u_email user) (users_collection db) = None"
    using assms(1) by (simp add: find_one_None)
  with assms(2) show ?thesis
    by (simp add: create_user_def get_password_hash_def)
qed

subsection \<open>Favorites\<close>

lemma add_favorite_recipe_duplicate:
  assumes "\<exists>f \<in> set (favorites_collection db).
             fav_email f = d_email current_user \<and> fav_name f = fr_name recipe"
  shows "add_favorite_recipe db recipe current_user =
           (Inl (HTTPException 400 ''Recipe with this title already exists for the user''), db)"
proof -
  have "find_one (\<lambda>f. fav_email f = d_email current_user \<and> fav_name f = fr_name recipe)
          (favorites_collection db) \<noteq> None"
    using assms by (simp add: find_one_None)
  then show ?thesis
    by (simp add: add_favorite_recipe_def)
qed

lemma add_favorite_recipe_fresh:
  assumes "\<forall>f \<in> set (favorites_collection db).
             \<not> (fav_email f = d_email current_user \<and> fav_name f = fr_name recipe)"
  shows "add_favorite_recipe db recipe current_user =
           (Inr ''Recipe added successfully'',
            db\<lparr>favorites_collection := favorites_collection db @
                 [\<lparr>fav_image = fr_image recipe, fav_name = fr_name recipe,
                   fav_ingredients = fr_ingredients recipe,
                   fav_instructions = fr_instructions recipe,
                   fav_email = d_email current_user\<rparr>]\<rparr>)"
proof -
  have "find_one (\<lambda>f. fav_email f = d_email current_user \<and> fav_name f = fr_name recipe)
          (favorites_collection db) = None"
    using assms by (simp add: find_one_None)
  then show ?thesis
    by (simp add: add_favorite_recipe_def insert_one_def)
qed

lemma fav_unique_add_favorite_recipe:
  assumes "fav_unique db"
  shows "fav_unique (snd (add_favorite_recipe db recipe current_user))"
proof (cases "\<exists>f \<in> set (favorites_collection db).
                fav_email f = d_email current_user \<and> fav_name f = fr_name recipe")
  case True
  then show ?thesis
    using assms by (simp add: add_favorite_recipe_duplicate)
next
  case False
  then have fresh: "\<forall>f \<in> set (favorites_collection db).
                      \<not> (fav_email f = d_email current_user \<and> fav_name f = fr_name recipe)"
    by blast
  then have "(d_email current_user, fr_name recipe) \<notin> fav_key ` set (favorites_collection db)"
    by (auto simp: fav_key_def)
  with assms show ?thesis
    by (simp add: add_favorite_recipe_fresh [OF fresh] fav_unique_def fav_key_def)
qed

lemma fav_unique_delete_user_account:
  "fav_unique db \<Longrightarrow> fav_unique (snd (delete_user_account db current_user))"
  by (simp add: delete_user_account_def Let_def fav_unique_def delete_many_def distinct_map_filter)

lemma fav_unique_delete_favorite_recipe:
  "fav_unique db \<Longrightarrow> fav_unique (snd (delete_favorite_recipe db title current_user))"
  by (simp add: delete_favorite_recipe_def Let_def fav_unique_def distinct_map_delete_one)

lemma favorites_create_user:
  "favorites_collection (snd (create_user e db user)) = favorites_collection db"
  by (simp add: create_user_def Let_def split: sum.splits)

lemma favorites_update_user:
  "favorites_collection (snd (update_user e db user current_user)) = favorites_collection db"
  by (simp add: update_user_def Let_def split: sum.splits field.splits)

lemma favorites_login:
  "snd (login_for_access_token e db username password) = db"
  by (simp add: login_for_access_token_def split: option.splits)

lemma fav_unique_depends:
  assumes "fav_unique db" and "\<And>current_user. fav_unique (snd (handler current_user))"
  shows "fav_unique (snd (depends_current_user e db token handler))"
  using assms by (simp add: depends_current_user_def split: sum.splits)

lemma fav_unique_serve: "fav_unique db \<Longrightarrow> fav_unique (serve e r db)"
proof (cases r)
  case (PostUsers user)
  assume "fav_unique db"
  then show ?thesis
    by (simp add: PostUsers fav_unique_def favorites_create_user)
next
  case (PutUsers token user)
  assume "fav_unique db"
  then show ?thesis
    unfolding PutUsers serve.simps
    by (rule fav_unique_depends) (simp add: fav_unique_def favorites_update_user \<open>fav_unique db\<close>[unfolded fav_unique_def])
next
  case (PostToken username password)
  assume "fav_unique db"
  then show ?thesis
    by (simp add: PostToken favorites_login)
next
  case (GetUsersProfile token)
  assume "fav_unique db"
  then show ?thesis
    unfolding GetUsersProfile serve.simps
    by (rule fav_unique_depends) (simp add: get_user_profile_def \<open>fav_unique db\<close>)
next
  case (DeleteAccount token)
  assume "fav_unique db"
  then show ?thesis
    unfolding DeleteAccount serve.simps
    by (rule fav_unique_depends) (simp add: fav_unique_delete_user_account \<open>fav_unique db\<close>)
next
  case (PostRecipes token recipe)
  assume "fav_unique db"
  then show ?thesis
    unfolding PostRecipes serve.simps
    by (rule fav_unique_depends) (simp add: fav_unique_add_favorite_recipe \<open>fav_unique db\<close>)
next
  case (GetRecipes token title)
  assume "fav_unique db"
  then show ?thesis
    unfolding GetRecipes serve.simps
    by (rule fav_unique_depends) (simp add: get_user_recipes_def Let_def \<open>fav_unique db\<close>)
next
  case (DeleteRecipes token title)
  assume "fav_unique db"
  then show ?thesis
    unfolding DeleteRecipes serve.simps
    by (rule fav_unique_depends) (simp add: fav_unique_delete_favorite_recipe \<open>fav_unique db\<close>)
qed

lemma fav_unique_serve_all: "fav_unique db \<Longrightarrow> fav_unique (serve_all rs db)"
  by (induction rs arbitrary: db) (auto simp: fav_unique_serve)

text \<open>
  C5. \<open>add_favorite\<close> raises the conflict (status 400) and changes nothing when the
  caller already has a favorite of that name, and otherwise appends the record tagged
  with the caller's email. Every request preserves the uniqueness of the pair of owner
  and name, so no sequence of requests on an empty store yields two favorites with the
  same pair.
\<close>

theorem favorites_unique:
  "((\<exists>f \<in> set (favorites_collection db).
       fav_email f = d_email current_user \<and> fav_name f = fr_name recipe) \<longrightarrow>
      add_favorite_recipe db recipe current_user =
        (Inl (HTTPException 400 ''Recipe with this title already exists for the user''), db)) \<and>
   ((\<forall>f \<in> set (favorites_collection db).
       \<not> (fav_email f = d_email current_user \<and> fav_name f = fr_name recipe)) \<longrightarrow>
      add_favorite_recipe db recipe current_user =
        (Inr ''Recipe added successfully'',
         db\<lparr>favorites_collection := favorites_collection db @
              [\<lparr>fav_image = fr_image recipe, fav_name = fr_name recipe,
                fav_ingredients = fr_ingredients recipe,
                fav_instructions = fr_instructions recipe,
                fav_email = d_email current_user\<rparr>]\<rparr>)) \<and>
   (fav_unique db \<longrightarrow> fav_unique (serve e r db)) \<and>
   fav_unique (serve_all rs \<lparr>users_collection = [], favorites_collection = []\<rparr>)"
proof -
  have "fav_unique \<lparr>users_collection = [], favorites_collection = []\<rparr>"
    by (simp add: fav_unique_def)
  then have "fav_unique (serve_all rs \<lparr>users_collection = [], favorites_collection = []\<rparr>)"
    by (rule fav_unique_serve_all)
  then show ?thesis
    using add_favorite_recipe_duplicate [of db current_user recipe]
      add_favorite_recipe_fresh [of db current_user recipe]
      fav_unique_serve [of db e r]
    by blast
qed

theorem favorites_unique_witness:
  "add_favorite_recipe ex_db
     \<lparr>fr_image = ''p2.png'', fr_name = ''Pie'', fr_ingredients = [], fr_instructions = ''''\<rparr>
     ex_ann =
     (Inl (HTTPException 400 ''Recipe with this title already exists for the user''), ex_db) \<and>
   fav_unique ex_db \<and>
   fav_unique (serve ex_env
     (PostRecipes (Signed ''k'' \<lparr>sub = Some ''ann@x.org'', exp = Some 2000\<rparr>)
        \<lparr>fr_image = ''p2.png'', fr_name = ''Pie'', fr_ingredients = [], fr_instructions = ''''\<rparr>)
     ex_db)"
proof -
  have u: "fav_unique ex_db"
    by (simp add: fav_unique_def ex_defs)
  show ?thesis
    using u favorites_unique [of ex_db ex_ann
        "\<lparr>fr_image = ''p2.png'', fr_name = ''Pie'', fr_ingredients = [], fr_instructions = ''''\<rparr>"
        ex_env
        "PostRecipes (Signed ''k'' \<lparr>sub = Some ''ann@x.org'', exp = Some 2000\<rparr>)
          \<lparr>fr_image = ''p2.png'', fr_name = ''Pie'', fr_ingredients = [], fr_instructions = ''''\<rparr>"]
    by (simp add: ex_defs)
qed

subsection \<open>Profile update\<close>

lemma current_user_subject:
  "get_current_user e db token = Inr current_user \<Longrightarrow>
   token_subject token = Some (d_email current_user)"
  by (auto simp: get_current_user_def jwt_decode_def token_subject_def find_one_Some_iff
        split: option.splits jwt.splits if_splits)

text \<open>
  C6. For an authenticated caller, a body whose email is not the subject of the
  caller's token makes \<open>PUT /users/\<close> raise 403, and the collections are left as
  they were.
\<close>

theorem update_profile_forbidden:
  assumes "get_current_user e db token = Inr current_user"
    and "token_subject token \<noteq> Some (u_email user)"
  shows "depends_current_user e db token (update_user e db user) =
           (Inl (HTTPException 403 ''You can only update your own profile''), db)"
proof -
  have "d_email current_user \<noteq> u_email user"
    using current_user_subject [OF assms(1)] assms(2) by auto
  then show ?thesis
    by (simp add: depends_current_user_def assms(1) update_user_def)
qed

theorem update_profile_forbidden_witness:
  "get_current_user ex_env ex_db (Signed ''k'' \<lparr>sub = Some ''ann@x.org'', exp = Some 2000\<rparr>) =
     Inr ex_ann \<and>
   token_subject (Signed ''k'' \<lparr>sub = Some ''ann@x.org'', exp = Some 2000\<rparr>) \<noteq> Some ''bob@x.org'' \<and>
   depends_current_user ex_env ex_db (Signed ''k'' \<lparr>sub = Some ''ann@x.org'', exp = Some 2000\<rparr>)
     (update_user ex_env ex_db
        \<lparr>u_name = ''Mallory'', u_email = ''bob@x.org'', u_password = Unset,
         u_profile_image = Unset\<rparr>) =
     (Inl (HTTPException 403 ''You can only update your own profile''), ex_db)"
proof -
  have a: "get_current_user ex_env ex_db
             (Signed ''k'' \<lparr>sub = Some ''ann@x.org'', exp = Some 2000\<rparr>) = Inr ex_ann"
    by (simp add: get_current_user_def jwt_decode_def find_one_def ex_defs)
  have s: "token_subject (Signed ''k'' \<lparr>sub = Some ''ann@x.org'', exp = Some 2000\<rparr>) \<noteq>
             Some (u_email \<lparr>u_name = ''Mallory'', u_email = ''bob@x.org'', u_password = Unset,
                             u_profile_image = Unset\<rparr>)"
    by (simp add: token_subject_def)
  from update_profile_forbidden [OF a s] a s show ?thesis
    by simp
qed

lemma update_user_reaches_update:
  assumes "fst (update_user e db user current_user) \<noteq>
             Inl (HTTPException 403 ''You can only update your own profile'')"
    and "fst (update_user e db user current_user) \<noteq>
             Inl (HTTPException 400 ''Provided image URL is not accessible'')"
    and "fst (update_user e db user current_user) \<noteq> Inl TypeError"
  obtains password where
    "password = Unset \<and> u_password user = Unset \<or>
     (\<exists>pw. password = Given (pwd_hash e pw) \<and> u_password user = Given (Some pw))"
    and "update_user e db user current_user =
      (let upd = \<lparr>s_name = u_name user, s_email = u_email user, s_password = password,
                  s_profile_image = u_profile_image user\<rparr>;
           result = update_one (\<lambda>u. d_email u = d_email current_user) (set_fields upd)
                      (users_collection db);
           db' = db\<lparr>users_collection := snd result\<rparr>
       in if fst result = 0
          then (Inl (HTTPException 404 ''User not found or no changes made''), db')
          else (Inr ''Profile updated successfully'', db'))"
proof (cases "u_password user")
  case Unset
  with assms have "update_user e db user current_user =
      (let upd = \<lparr>s_name = u_name user, s_email = u_email user, s_password = Unset,
                  s_profile_image = u_profile_image user\<rparr>;
           result = update_one (\<lambda>u. d_email u = d_email current_user) (set_fields upd)
                      (users_collection db);
           db' = db\<lparr>users_collection := snd result\<rparr>
       in if fst result = 0
          then (Inl (HTTPException 404 ''User not found or no changes made''), db')
          else (Inr ''Profile updated successfully'', db'))"
    by (simp add: update_user_def split: if_splits)
  with Unset that show ?thesis by blast
next
  case (Given p)
  show ?thesis
  proof (cases p)
    case None
    with Given assms show ?thesis
      by (simp add: update_user_def get_password_hash_def split: if_splits)
  next
    case (Some pw)
    with Given assms have "update_user e db user current_user =
      (let upd = \<lparr>s_name = u_name user, s_email = u_email user,
                  s_password = Given (pwd_hash e pw),
                  s_profile_image = u_profile_image user\<rparr>;
           result = update_one (\<lambda>u. d_email u = d_email current_user) (set_fields upd)
                      (users_collection db);
           db' = db\<lparr>users_collection := snd result\<rparr>
       in if fst result = 0
          then (Inl (HTTPException 404 ''User not found or no changes made''), db')
          else (Inr ''Profile updated successfully'', db'))"
      by (simp add: update_user_def get_password_hash_def split: if_splits)
    with Given Some that show ?thesis by blast
  qed
qed

lemma update_one_modified:
  assumes "fst (update_one P f xs) \<noteq> 0"
  obtains pre old post where "xs = pre @ old # post" "\<forall>y \<in> set pre. \<not> P y" "P old"
    "f old \<noteq> old" "snd (update_one P f xs) = pre @ f old # post"
proof -
  from assms obtain old where found: "find_one P xs = Some old" and changed: "f old \<noteq> old"
    by (auto simp: update_one_count split: option.splits)
  from found obtain pre post where xs: "xs = pre @ old # post" and P: "P old"
    and pre: "\<forall>y \<in> set pre. \<not> P y"
    by (auto simp: find_one_Some_iff)
  have "snd (update_one P f xs) = pre @ f old # post"
    by (simp add: xs update_one_first [OF pre P])
  with xs pre P changed that show ?thesis by blast
qed

text \<open>
  C7. A successful update rewrites one record, the first with the caller's email, and
  nothing else: \<open>name\<close> and \<open>email\<close> are those of the request, \<open>password\<close> is the
  stored one when the request has none and the hash of the supplied one otherwise,
  \<open>profile_image\<close> is the stored one when the request has none and the supplied one
  otherwise. Once the update is reached (no 403, no 400, no \<open>TypeError\<close>), the handler
  raises 404 exactly when no record was changed.
\<close>

theorem update_profile_frame:
  "(update_user e db user current_user = (Inr msg, db') \<longrightarrow>
      (\<exists>pre old new post.
         users_collection db = pre @ old # post \<and>
         (\<forall>u \<in> set pre. d_email u \<noteq> d_email current_user) \<and>
         d_email old = d_email current_user \<and>
         users_collection db' = pre @ new # post \<and>
         favorites_collection db' = favorites_collection db \<and>
         d_name new = u_name user \<and> d_email new = u_email user \<and>
         (u_password user = Unset \<longrightarrow> d_password new = d_password old) \<and>
         (\<forall>p. u_password user = Given p \<longrightarrow> (\<exists>pw. p = Some pw \<and> d_password new = pwd_hash e pw)) \<and>
         (u_profile_image user = Unset \<longrightarrow> d_profile_image new = d_profile_image old) \<and>
         (\<forall>v. u_profile_image user = Given v \<longrightarrow> d_profile_image new = v))) \<and>
   (fst (update_user e db user current_user) \<noteq>
        Inl (HTTPException 403 ''You can only update your own profile'') \<and>
    fst (update_user e db user current_user) \<noteq>
        Inl (HTTPException 400 ''Provided image URL is not accessible'') \<and>
    fst (update_user e db user current_user) \<noteq> Inl TypeError \<longrightarrow>
      (fst (update_user e db user current_user) =
         Inl (HTTPException 404 ''User not found or no changes made'') \<longleftrightarrow>
       snd (update_user e db user current_user) = db))"
proof (intro conjI impI)
  assume ok: "update_user e db user current_user = (Inr msg, db')"
  then have "fst (update_user e db user current_user) \<noteq>
             Inl (HTTPException 403 ''You can only update your own profile'')"
    and "fst (update_user e db user current_user) \<noteq>
             Inl (HTTPException 400 ''Provided image URL is not accessible'')"
    and "fst (update_user e db user current_user) \<noteq> Inl TypeError"
    by simp_all
  then obtain password where
    pw: "password = Unset \<and> u_password user = Unset \<or>
         (\<exists>pw. password = Given (pwd_hash e pw) \<and> u_password user = Given (Some pw))"
    and run: "update_user e db user current_user =
      (let upd = \<lparr>s_name = u_name user, s_email = u_email user, s_password = password,
                  s_profile_image = u_profile_image user\<rparr>;
           result = update_one (\<lambda>u. d_email u = d_email current_user) (set_fields upd)
                      (users_collection db);
           db' = db\<lparr>users_collection := snd result\<rparr>
       in if fst result = 0
          then (Inl (HTTPException 404 ''User not found or no changes made''), db')
          else (Inr ''Profile updated successfully'', db'))"
    by (rule update_user_reaches_update)
  let ?upd = "\<lparr>s_name = u_name user, s_email = u_email user, s_password = password,
               s_profile_image = u_profile_image user\<rparr>"
  let ?P = "\<lambda>u. d_email u = d_email current_user"
  from ok run have cnt: "fst (update_one ?P (set_fields ?upd) (users_collection db)) \<noteq> 0"
    and db': "db' = db\<lparr>users_collection :=
                snd (update_one ?P (set_fields ?upd) (users_collection db))\<rparr>"
    by (auto simp: Let_def split: if_splits)
  from cnt obtain pre old post where
    xs: "users_collection db = pre @ old # post" and pre: "\<forall>y \<in> set pre. \<not> ?P y"
    and old: "?P old"
    and new: "snd (update_one ?P (set_fields ?upd) (users_collection db)) =
                pre @ set_fields ?upd old # post"
    by (rule update_one_modified)
  let ?new = "set_fields ?upd old"
  have "users_collection db' = pre @ ?new # post"
    and "favorites_collection db' = favorites_collection db"
    by (simp_all add: db' new)
  moreover have "d_name ?new = u_name user" and "d_email ?new = u_email user"
    by (simp_all add: set_fields_def)
  moreover have "u_password user = Unset \<longrightarrow> d_password ?new = d_password old"
    using pw by (auto simp: set_fields_def)
  moreover have "\<forall>p. u_password user = Given p \<longrightarrow>
                   (\<exists>pw. p = Some pw \<and> d_password ?new = pwd_hash e pw)"
    using pw by (auto simp: set_fields_def)
  moreover have "u_profile_image user = Unset \<longrightarrow> d_profile_image ?new = d_profile_image old"
    by (simp add: set_fields_def)
  moreover have "\<forall>v. u_profile_image user = Given v \<longrightarrow> d_profile_image ?new = v"
    by (simp add: set_fields_def)
  ultimately show "\<exists>pre old new post.
         users_collection db = pre @ old # post \<and>
         (\<forall>u \<in> set pre. d_email u \<noteq> d_email current_user) \<and>
         d_email old = d_email current_user \<and>
         users_collection db' = pre @ new # post \<and>
         favorites_collection db' = favorites_collection db \<and>
         d_name new = u_name user \<and> d_email new = u_email user \<and>
         (u_password user = Unset \<longrightarrow> d_password new = d_password old) \<and>
         (\<forall>p. u_password user = Given p \<longrightarrow> (\<exists>pw. p = Some pw \<and> d_password new = pwd_hash e pw)) \<and>
         (u_profile_image user = Unset \<longrightarrow> d_profile_image new = d_profile_image old) \<and>
         (\<forall>v. u_profile_image user = Given v \<longrightarrow> d_profile_image new = v)"
    using xs pre old by blast
next
  assume "fst (update_user e db user current_user) \<noteq>
        Inl (HTTPException 403 ''You can only update your own profile'') \<and>
    fst (update_user e db user current_user) \<noteq>
        Inl (HTTPException 400 ''Provided image URL is not accessible'') \<and>
    fst (update_user e db user current_user) \<noteq> Inl TypeError"
  then obtain password where
    run: "update_user e db user current_user =
      (let upd = \<lparr>s_name = u_name user, s_email = u_email user, s_password = password,
                  s_profile_image = u_profile_image user\<rparr>;
           result = update_one (\<lambda>u. d_email u = d_email current_user) (set_fields upd)
                      (users_collection db);
           db' = db\<lparr>users_collection := snd result\<rparr>
       in if fst result = 0
          then (Inl (HTTPException 404 ''User not found or no changes made''), db')
          else (Inr ''Profile updated successfully'', db'))"
    using update_user_reaches_update [of e db user current_user] by metis
  let ?upd = "\<lparr>s_name = u_name user, s_email = u_email user, s_password = password,
               s_profile_image = u_profile_image user\<rparr>"
  let ?P = "\<lambda>u. d_email u = d_email current_user"
  show "fst (update_user e db user current_user) =
         Inl (HTTPException 404 ''User not found or no changes made'') \<longleftrightarrow>
       snd (update_user e db user current_user) = db"
  proof (cases "fst (update_one ?P (set_fields ?upd) (users_collection db)) = 0")
    case True
    then show ?thesis
      by (simp add: run Let_def update_one_unchanged)
  next
    case False
    then obtain pre old post where
      xs: "users_collection db = pre @ old # post"
      and changed: "set_fields ?upd old \<noteq> old"
      and new: "snd (update_one ?P (set_fields ?upd) (users_collection db)) =
                  pre @ set_fields ?upd old # post"
      by (rule update_one_modified)
    have "db\<lparr>users_collection := pre @ set_fields ?upd old # post\<rparr> \<noteq> db"
    proof
      assume "db\<lparr>users_collection := pre @ set_fields ?upd old # post\<rparr> = db"
      then have "users_collection (db\<lparr>users_collection := pre @ set_fields ?upd old # post\<rparr>) =
                 users_collection db"
        by simp
      with xs changed show False by simp
    qed
    with False show ?thesis
      by (simp add: run Let_def new)
  qed
qed

theorem update_profile_frame_witness:
  "update_user ex_env ex_db
     \<lparr>u_name = ''Ann B'', u_email = ''ann@x.org'', u_password = Given (Some ''new''),
      u_profile_image = Unset\<rparr> ex_ann =
     (Inr ''Profile updated successfully'',
      ex_db\<lparr>users_collection :=
        [\<lparr>d_name = ''Ann B'', d_email = ''ann@x.org'', d_password = ''#new'',
          d_profile_image = None\<rparr>]\<rparr>) \<and>
   (\<exists>new. users_collection (ex_db\<lparr>users_collection :=
        [\<lparr>d_name = ''Ann B'', d_email = ''ann@x.org'', d_password = ''#new'',
          d_profile_image = None\<rparr>]\<rparr>) = [new] \<and>
      d_name new = ''Ann B'' \<and> d_password new = ''#new'' \<and> d_profile_image new = None) \<and>
   fst (update_user ex_env ex_db
     \<lparr>u_name = ''Ann'', u_email = ''ann@x.org'', u_password = Unset,
      u_profile_image = Unset\<rparr> ex_ann) =
     Inl (HTTPException 404 ''User not found or no changes made'')"
proof -
  let ?body = "\<lparr>u_name = ''Ann B'', u_email = ''ann@x.org'', u_password = Given (Some ''new''),
                u_profile_image = Unset\<rparr>"
  let ?same = "\<lparr>u_name = ''Ann'', u_email = ''ann@x.org'', u_password = Unset,
                u_profile_image = Unset\<rparr>"
  let ?db' = "ex_db\<lparr>users_collection :=
        [\<lparr>d_name = ''Ann B'', d_email = ''ann@x.org'', d_password = ''#new'',
          d_profile_image = None\<rparr>]\<rparr>"
  have run: "update_user ex_env ex_db ?body ex_ann = (Inr ''Profile updated successfully'', ?db')"
    by (simp add: update_user_def attr_def get_password_hash_def set_fields_def ex_defs)
  have frame: "\<exists>new. users_collection ?db' = [new] \<and> d_name new = ''Ann B'' \<and>
                 d_password new = ''#new'' \<and> d_profile_image new = None"
  proof -
    from update_profile_frame [of ex_env ex_db ?body ex_ann "''Profile updated successfully''" ?db']
      run
    obtain pre old new post where
      before: "users_collection ex_db = pre @ old # post"
      and after: "users_collection ?db' = pre @ new # post"
      and fields: "d_name new = u_name ?body"
        "\<forall>p. u_password ?body = Given p \<longrightarrow> (\<exists>pw. p = Some pw \<and> d_password new = pwd_hash ex_env pw)"
        "u_profile_image ?body = Unset \<longrightarrow> d_profile_image new = d_profile_image old"
      by blast
    from before have "pre = []" and "post = []" and "old = ex_ann"
      by (simp_all add: ex_db_def Cons_eq_append_conv)
    with after fields show ?thesis
      by (simp add: ex_env_def ex_ann_def)
  qed
  have same: "snd (update_user ex_env ex_db ?same ex_ann) = ex_db"
    and "fst (update_user ex_env ex_db ?same ex_ann) \<noteq>
           Inl (HTTPException 403 ''You can only update your own profile'')"
    and "fst (update_user ex_env ex_db ?same ex_ann) \<noteq>
           Inl (HTTPException 400 ''Provided image URL is not accessible'')"
    and "fst (update_user ex_env ex_db ?same ex_ann) \<noteq> Inl TypeError"
    by (simp_all add: update_user_def attr_def set_fields_def ex_defs)
  with update_profile_frame [of ex_env ex_db ?same ex_ann]
  have "fst (update_user ex_env ex_db ?same ex_ann) =
          Inl (HTTPException 404 ''User not found or no changes made'')"
    by blast
  with run frame show ?thesis by blast
qed

subsection \<open>Account deletion\<close>

text \<open>
  C9. When \<open>delete_account\<close> raises 404, the users are as before but the caller's
  favorites are gone: the store has changed whenever the caller had a favorite.
\<close>

theorem delete_account_not_atomic:
  assumes "fst (delete_user_account db current_user) = Inl (HTTPException 404 ''User not found'')"
  shows "favorites_collection (snd (delete_user_account db current_user)) =
           filter (\<lambda>f. fav_email f \<noteq> d_email current_user) (favorites_collection db) \<and>
         users_collection (snd (delete_user_account db current_user)) = users_collection db \<and>
         ((\<exists>f \<in> set (favorites_collection db). fav_email f = d_email current_user) \<longrightarrow>
            snd (delete_user_account db current_user) \<noteq> db)"
proof -
  have zero: "fst (delete_one (\<lambda>u. d_email u = d_email current_user) (users_collection db)) = 0"
    using assms by (simp add: delete_user_account_def Let_def split: if_splits)
  then have same: "delete_one (\<lambda>u. d_email u = d_email current_user) (users_collection db) =
                     (0, users_collection db)"
    by (simp add: delete_one_count delete_one_no_match)
  have res: "snd (delete_user_account db current_user) =
               \<lparr>users_collection = users_collection db,
                favorites_collection =
                  filter (\<lambda>f. fav_email f \<noteq> d_email current_user) (favorites_collection db)\<rparr>"
    by (simp add: delete_user_account_def Let_def same delete_many_def)
  have "snd (delete_user_account db current_user) \<noteq> db"
    if "\<exists>f \<in> set (favorites_collection db). fav_email f = d_email current_user"
  proof
    assume "snd (delete_user_account db current_user) = db"
    then have "filter (\<lambda>f. fav_email f \<noteq> d_email current_user) (favorites_collection db) =
               favorites_collection db"
      using res by (metis database.select_convs(2))
    then have "\<forall>f \<in> set (favorites_collection db). fav_email f \<noteq> d_email current_user"
      by (simp add: filter_id_conv)
    with that show False by blast
  qed
  with res show ?thesis by simp
qed

theorem delete_account_not_atomic_witness:
  "fst (delete_user_account \<lparr>users_collection = [], favorites_collection = [ex_pie]\<rparr> ex_ann) =
     Inl (HTTPException 404 ''User not found'') \<and>
   snd (delete_user_account \<lparr>users_collection = [], favorites_collection = [ex_pie]\<rparr> ex_ann) =
     \<lparr>users_collection = [], favorites_collection = []\<rparr>"
proof -
  have a: "fst (delete_user_account \<lparr>users_collection = [], favorites_collection = [ex_pie]\<rparr>
             ex_ann) = Inl (HTTPException 404 ''User not found'')"
    by (simp add: delete_user_account_def Let_def)
  from delete_account_not_atomic [OF a] a show ?thesis
    by (simp add: ex_defs) 
qed

text \<open>
  Behind its dependency the handler does not get there as long as nothing else touches
  the store in between: a caller that \<open>get_current_user\<close> has just found is deleted.
\<close>

lemma delete_account_route:
  "fst (depends_current_user e db token (delete_user_account db)) \<noteq>
     Inl (HTTPException 404 ''User not found'')"
proof (cases "get_current_user e db token")
  case (Inl err)
  then have "err \<noteq> HTTPException 404 ''User not found''"
    by (auto simp: get_current_user_def split: option.splits if_splits)
  with Inl show ?thesis
    by (simp add: depends_current_user_def)
next
  case (Inr current_user)
  then have "\<exists>u \<in> set (users_collection db). d_email u = d_email current_user"
    by (auto simp: get_current_user_def find_one_Some_iff split: option.splits if_splits)
  then have "fst (delete_one (\<lambda>u. d_email u = d_email current_user) (users_collection db)) \<noteq> 0"
    by (simp add: delete_one_count)
  with Inr show ?thesis
    by (simp add: depends_current_user_def delete_user_account_def Let_def)
qed

end
